theory Spec2Isabelle
  imports Complex_Main "HOL-Library.Word" "HOL-Library.Multiset"
begin

unbundle bit_operations_syntax

section \<open>Data model\<close>

text \<open>
  The uploader \<^verbatim>\<open>log_to_aws.py\<close> is embedded function by function. A line of serial
  text is a \<open>string\<close>, each \<open>char\<close> standing for one code point below 256. A string
  inside a decoded JSON value is a \<open>ustr\<close>, the list of its code points: a JSON escape
  can denote any code point, a lone surrogate included, and the translator encodes
  such strings. \<open>py_str\<close> turns a literal into a \<open>ustr\<close>. Python values that come out of
  \<^verbatim>\<open>json.loads\<close> are the datatype \<open>json\<close>; a Python \<^verbatim>\<open>dict\<close> with string keys is an
  association list read with \<open>map_of\<close>. Python \<^verbatim>\<open>int\<close> is \<open>int\<close>; a \<^verbatim>\<open>bytes\<close> or
  \<^verbatim>\<open>bytearray\<close> value is an \<open>int list\<close> whose elements lie in \<open>0..255\<close>, the range
  check of the constructor written out. A Python \<^verbatim>\<open>float\<close> is a \<open>pyfloat\<close>: a finite
  value, an infinity or NaN. Exceptions are values of \<open>exn\<close>, returned on the left of
  a sum.
\<close>

datatype exn = JSONDecodeError | RecursionError | ValueError | IndexError | UnicodeEncodeError

datatype pyfloat = Finite real | PosInf | NegInf | NaN

text \<open>
  The comparisons \<^verbatim>\<open>x <= k\<close> and \<^verbatim>\<open>x > k\<close> of a float with an int. Every comparison
  with NaN is false.
\<close>

fun float_le_int :: "pyfloat \<Rightarrow> int \<Rightarrow> bool" where
  "float_le_int (Finite x) k \<longleftrightarrow> x \<le> of_int k"
| "float_le_int NegInf k \<longleftrightarrow> True"
| "float_le_int PosInf k \<longleftrightarrow> False"
| "float_le_int NaN k \<longleftrightarrow> False"

fun float_gt_int :: "pyfloat \<Rightarrow> int \<Rightarrow> bool" where
  "float_gt_int (Finite x) k \<longleftrightarrow> of_int k < x"
| "float_gt_int PosInf k \<longleftrightarrow> True"
| "float_gt_int NegInf k \<longleftrightarrow> False"
| "float_gt_int NaN k \<longleftrightarrow> False"

type_synonym ustr = "nat list"

definition py_str :: "string \<Rightarrow> ustr" where
  "py_str cs = map of_char cs"

datatype json =
    JNull
  | JBool bool
  | JInt int
  | JFloat pyfloat
  | JStr ustr
  | JList "json list"
  | JDict "(ustr \<times> json) list"

type_synonym dict = "(ustr \<times> json) list"

text \<open>\<^verbatim>\<open>d.get(k)\<close>: the value stored under \<open>k\<close>, or \<^verbatim>\<open>None\<close> when the key is missing.\<close>

definition get :: "dict \<Rightarrow> ustr \<Rightarrow> json" where
  "get d k = (case map_of d k of None \<Rightarrow> JNull | Some v \<Rightarrow> v)"

section \<open>Delivery queue\<close>

text \<open>
  \<^verbatim>\<open>InMemoryQueue\<close> wraps a \<^verbatim>\<open>deque\<close>; the model is the list of its items, oldest
  first. Every method body runs under the queue's lock, so each call is one atomic
  step on that list.
\<close>

definition enqueue :: "'a list \<Rightarrow> 'a \<Rightarrow> 'a list" where
  "enqueue q item = q @ [item]"

text \<open>
  The loop of \<^verbatim>\<open>dequeue_batch\<close>:
  \<^verbatim>\<open>while self._q and len(out) < max_items: out.append(self._q.popleft())\<close>.
  The state is the pair of \<open>out\<close> and the deque; the result is that pair at exit.
\<close>

fun dequeue_loop :: "int \<Rightarrow> 'a list \<Rightarrow> 'a list \<Rightarrow> 'a list \<times> 'a list" where
  "dequeue_loop max_items out [] = (out, [])"
| "dequeue_loop max_items out (x # q) =
     (if int (length out) < max_items
      then dequeue_loop max_items (out @ [x]) q
      else (out, x # q))"

definition dequeue_batch :: "'a list \<Rightarrow> int \<Rightarrow> 'a list \<times> 'a list" where
  "dequeue_batch q max_items = dequeue_loop max_items [] q"

text \<open>
  A run of \<^verbatim>\<open>enqueue\<close> calls, one per item, in the order given. The failure branch
  of the tick in \<^verbatim>\<open>main\<close> is such a run over the reversed batch:
  \<^verbatim>\<open>for it in reversed(items): q.enqueue(it)\<close>.
\<close>

fun enqueue_all :: "'a list \<Rightarrow> 'a list \<Rightarrow> 'a list" where
  "enqueue_all q [] = q"
| "enqueue_all q (it # its) = enqueue_all (enqueue q it) its"

definition requeue :: "'a list \<Rightarrow> 'a list \<Rightarrow> 'a list" where
  "requeue q items = enqueue_all q (rev items)"

text \<open>
  One tick of \<^verbatim>\<open>main\<close> with the database reachable. \<open>flush_ok\<close> tells whether
  \<^verbatim>\<open>flush_queue\<close> returned or raised; \<open>arrived\<close> are the items the serial thread
  enqueued while the flush was running. The result is the queue after the tick.
\<close>

definition flush_tick :: "bool \<Rightarrow> int \<Rightarrow> 'a list \<Rightarrow> 'a list \<Rightarrow> 'a list" where
  "flush_tick flush_ok batch_size arrived q =
     (case dequeue_batch q batch_size of
        (items, q1) \<Rightarrow>
          if items = [] then q1
          else let q2 = enqueue_all q1 arrived
               in if flush_ok then q2 else requeue q2 items)"

section \<open>Frame codec\<close>

text \<open>
  \<^verbatim>\<open>bytearray(xs)\<close> and \<^verbatim>\<open>bytes(xs)\<close> on a list of ints, and \<^verbatim>\<open>pkt.extend(xs)\<close>, raise
  \<^verbatim>\<open>ValueError\<close> unless every element is in \<^verbatim>\<open>range(256)\<close>.
\<close>

definition is_byte :: "int \<Rightarrow> bool" where
  "is_byte b \<longleftrightarrow> 0 \<le> b \<and> b < 256"

definition bytearray :: "int list \<Rightarrow> exn + int list" where
  "bytearray xs = (if list_all is_byte xs then Inr xs else Inl ValueError)"

definition bytearray_extend :: "int list \<Rightarrow> int list \<Rightarrow> exn + int list" where
  "bytearray_extend pkt xs = (if list_all is_byte xs then Inr (pkt @ xs) else Inl ValueError)"

text \<open>\<^verbatim>\<open>x = 0; for b in pkt: x ^= b\<close>\<close>

fun xor_loop :: "int \<Rightarrow> int list \<Rightarrow> int" where
  "xor_loop x [] = x"
| "xor_loop x (b # bs) = xor_loop (x XOR b) bs"

text \<open>
  \<^verbatim>\<open>_frame(password, opcode, content)\<close> of \<^verbatim>\<open>log_to_aws.py\<close>. Python's \<^verbatim>\<open>>>\<close> on
  an int is the floor division \<open>drop_bit\<close>.
\<close>

definition frame :: "int \<Rightarrow> int \<Rightarrow> int list \<Rightarrow> exn + int list" where
  "frame password opcode content =
     (case bytearray [0xA1, drop_bit 8 password AND 0xFF, password AND 0xFF, opcode] of
        Inl e \<Rightarrow> Inl e
      | Inr pkt0 \<Rightarrow>
          (case bytearray_extend pkt0 content of
             Inl e \<Rightarrow> Inl e
           | Inr pkt \<Rightarrow> let x = xor_loop 0 pkt in bytearray_extend pkt [x, 0xAA]))"

text \<open>
  \<^verbatim>\<open>build_frame(opcode, content)\<close> of \<^verbatim>\<open>dsdtech_switch_test.py\<close>; the module
  constant \<^verbatim>\<open>PWD\<close> is a parameter.
\<close>

definition build_frame :: "int \<Rightarrow> int \<Rightarrow> int list \<Rightarrow> exn + int list" where
  "build_frame PWD opcode content =
     (case bytearray [0xA1, drop_bit 8 PWD AND 0xFF, PWD AND 0xFF, opcode] of
        Inl e \<Rightarrow> Inl e
      | Inr header \<Rightarrow>
          (case bytearray content of
             Inl e \<Rightarrow> Inl e
           | Inr c \<Rightarrow>
               let payload = header @ c;
                   xor_acc = xor_loop 0 payload
               in (case bytearray [xor_acc, 0xAA] of
                     Inl e \<Rightarrow> Inl e
                   | Inr t \<Rightarrow> Inr (payload @ t))))"

text \<open>
  Two notions the frame properties are stated with. \<open>xor_of bs\<close> is the XOR of all
  bytes of \<open>bs\<close>. In the layout
  \<^verbatim>\<open>[0xA1][pwd_hi][pwd_lo][opcode][content...][xor][0xAA]\<close> the checksum byte is the
  last but one and covers every byte before it; \<open>checksum_holds f\<close> says that the
  checksum byte of \<open>f\<close> equals the XOR of the bytes it covers.
\<close>

primrec xor_of :: "int list \<Rightarrow> int" where
  "xor_of [] = 0"
| "xor_of (b # bs) = b XOR xor_of bs"

definition checksum_holds :: "int list \<Rightarrow> bool" where
  "checksum_holds f \<longleftrightarrow>
     2 \<le> length f \<and> f ! (length f - 2) = xor_of (take (length f - 2) f)"

section \<open>Packet parser\<close>

text \<open>
  \<^verbatim>\<open>str.isspace\<close> on the code points below 256: tab to carriage return, the four
  separators \<^verbatim>\<open>\x1c\<close> to \<^verbatim>\<open>\x1f\<close>, space, \<^verbatim>\<open>\x85\<close> and \<^verbatim>\<open>\xa0\<close>. \<^verbatim>\<open>str.strip()\<close>
  removes such characters from both ends.
\<close>

definition isspace :: "char \<Rightarrow> bool" where
  "isspace c \<longleftrightarrow> (of_char c :: nat) \<in> {9, 10, 11, 12, 13, 28, 29, 30, 31, 32, 133, 160}"

definition lstrip :: "string \<Rightarrow> string" where
  "lstrip s = dropWhile isspace s"

definition rstrip :: "string \<Rightarrow> string" where
  "rstrip s = rev (dropWhile isspace (rev s))"

definition strip :: "string \<Rightarrow> string" where
  "strip s = rstrip (lstrip s)"

definition startswith :: "string \<Rightarrow> string \<Rightarrow> bool" where
  "startswith s p \<longleftrightarrow> take (length p) s = p"

definition endswith :: "string \<Rightarrow> string \<Rightarrow> bool" where
  "endswith s p \<longleftrightarrow> length p \<le> length s \<and> drop (length s - length p) s = p"

text \<open>
  \<^verbatim>\<open>s.split(sep, 1)\<close> for a one-character separator: the parts before and after the
  first occurrence, or the whole string alone when there is none. \<^verbatim>\<open>xs[i]\<close> raises
  \<^verbatim>\<open>IndexError\<close> out of range.
\<close>

definition split1 :: "string \<Rightarrow> char \<Rightarrow> string list" where
  "split1 s sep =
     (if sep \<in> set s
      then [takeWhile (\<lambda>c. c \<noteq> sep) s, tl (dropWhile (\<lambda>c. c \<noteq> sep) s)]
      else [s])"

definition getitem :: "'a list \<Rightarrow> nat \<Rightarrow> exn + 'a" where
  "getitem xs i = (if i < length xs then Inr (xs ! i) else Inl IndexError)"

text \<open>
  \<^verbatim>\<open>_extract_json_text(line)\<close>. The \<^verbatim>\<open>try\<close> around the split catches every
  exception and returns \<^verbatim>\<open>None\<close>.
\<close>

definition extract_json_text :: "string \<Rightarrow> string option" where
  "extract_json_text line =
     (let text = strip line in
      if text = [] \<or> startswith text ''#'' then None
      else if startswith text ''{'' \<and> endswith text ''}'' then Some text
      else if CHR ''|'' \<in> set text then
        (case getitem (split1 text CHR ''|'') 1 of
           Inl e \<Rightarrow> None
         | Inr p \<Rightarrow>
             let part = strip p in
             if startswith part ''{'' \<and> endswith part ''}'' then Some part else None)
      else None)"

text \<open>
  \<^verbatim>\<open>parse_line_to_packet(line)\<close>. \<^verbatim>\<open>json.loads\<close> belongs to the Python library and
  is a parameter: it returns the decoded value or raises. The only handler around the
  call is \<^verbatim>\<open>except json.JSONDecodeError\<close>; any other exception leaves the function.
\<close>

definition parse_line_to_packet :: "(string \<Rightarrow> exn + json) \<Rightarrow> string \<Rightarrow> exn + dict option" where
  "parse_line_to_packet json_loads line =
     (case extract_json_text line of
        None \<Rightarrow> Inr None
      | Some json_text \<Rightarrow>
          if json_text = [] then Inr None
          else (case json_loads json_text of
                  Inl e \<Rightarrow> if e = JSONDecodeError then Inr None else Inl e
                | Inr obj \<Rightarrow> (case obj of JDict d \<Rightarrow> Inr (Some d) | _ \<Rightarrow> Inr None)))"

text \<open>
  Two notions for stating the parser's rules. \<open>after_first_bar s\<close> is the part of
  \<open>s\<close> behind its first \<open>|\<close>. \<open>decodes_to json_loads t r\<close> says that decoding the
  text \<open>t\<close> has the outcome \<open>r\<close> the rules name: the decoded object when \<open>t\<close> decodes
  to an object, none when it decodes to another value or \<^verbatim>\<open>json.loads\<close> raises
  \<^verbatim>\<open>JSONDecodeError\<close>.
\<close>

definition after_first_bar :: "string \<Rightarrow> string" where
  "after_first_bar s = tl (dropWhile (\<lambda>c. c \<noteq> CHR ''|'') s)"

definition decodes_to :: "(string \<Rightarrow> exn + json) \<Rightarrow> string \<Rightarrow> dict option \<Rightarrow> bool" where
  "decodes_to json_loads t r =
     (case json_loads t of
        Inr (JDict d) \<Rightarrow> r = Some d
      | Inr _ \<Rightarrow> r = None
      | Inl e \<Rightarrow> e = JSONDecodeError \<and> r = None)"

text \<open>
  A stand-in for \<^verbatim>\<open>json.loads\<close>, used where a property is run on concrete lines.
  It knows two objects and the text with a thousand nested brackets, on which the
  decoder exceeds the interpreter's recursion limit; it rejects every other text.
\<close>

definition json_loads_stub :: "string \<Rightarrow> exn + json" where
  "json_loads_stub s =
     (if s = ''{\"a\":'' @ replicate 1000 CHR ''['' @ ''}'' then Inl RecursionError
      else if s = ''{\"name\":\"a\"}'' then Inr (JDict [(py_str ''name'', JStr (py_str ''a''))])
      else if s = ''{\"name\":\"a\",\"battery_v\":3.7}''
        then Inr (JDict [(py_str ''name'', JStr (py_str ''a'')), (py_str ''battery_v'', JFloat (Finite 3.7))])
      else Inl JSONDecodeError)"

section \<open>Packet translator\<close>

text \<open>
  Three library functions the translator calls are parameters, collected in \<open>pylib\<close>:
  \<^verbatim>\<open>binascii.crc32\<close>, \<^verbatim>\<open>str.encode("utf-8")\<close>, which returns the bytes or raises, and
  the formatting of a value inside an f-string. The module constants
  \<^verbatim>\<open>DEFAULT_LAT\<close> and \<^verbatim>\<open>DEFAULT_LON\<close>, read from the environment once, are the record
  \<open>config\<close>; each is a float or \<^verbatim>\<open>None\<close>.
\<close>

record pylib =
  crc32 :: "int list \<Rightarrow> int"
  encode_utf8 :: "ustr \<Rightarrow> exn + int list"
  format_value :: "json \<Rightarrow> ustr"

record config =
  DEFAULT_LAT :: "pyfloat option"
  DEFAULT_LON :: "pyfloat option"

record sensor =
  hardware_id :: int
  name :: ustr
  sensor_type :: json
  gps_latitude :: json
  gps_longitude :: json
  metadata :: dict

record reading =
  sensor_id :: int
  ts :: int
  sequence :: json
  temperature_c :: json
  humidity_pct :: json
  capacitance_val :: json
  battery_v :: json
  rssi_dbm :: json

text \<open>
  \<^verbatim>\<open>stable_hardware_id(name_or_txid)\<close>. There is no handler in it: an exception of
  \<^verbatim>\<open>encode\<close> leaves the function.
\<close>

definition stable_hardware_id :: "pylib \<Rightarrow> ustr \<Rightarrow> exn + int" where
  "stable_hardware_id L name_or_txid =
     (case encode_utf8 L name_or_txid of
        Inl e \<Rightarrow> Inl e
      | Inr bs \<Rightarrow>
          let crc = crc32 L bs AND 0xFFFFFFFF
          in Inr (1000 + (crc AND 0x7FFFFFFF)))"

text \<open>
  \<^verbatim>\<open>isinstance(v, (int, float))\<close>: true of ints and floats, and of \<^verbatim>\<open>True\<close> and
  \<^verbatim>\<open>False\<close>, since \<^verbatim>\<open>bool\<close> is a subclass of \<^verbatim>\<open>int\<close>. \<^verbatim>\<open>isinstance(v, str)\<close>.
\<close>

fun isinstance_int_float :: "json \<Rightarrow> bool" where
  "isinstance_int_float (JInt _) = True"
| "isinstance_int_float (JFloat _) = True"
| "isinstance_int_float (JBool _) = True"
| "isinstance_int_float _ = False"

fun isinstance_str :: "json \<Rightarrow> bool" where
  "isinstance_str (JStr _) = True"
| "isinstance_str _ = False"

definition float_or_none :: "pyfloat option \<Rightarrow> json" where
  "float_or_none d = (case d of None \<Rightarrow> JNull | Some x \<Rightarrow> JFloat x)"

text \<open>
  \<^verbatim>\<open>translate_packet(pkt)\<close>; \<open>now_utc\<close> is the value of
  \<^verbatim>\<open>datetime.now(timezone.utc)\<close> at the call. The call of \<^verbatim>\<open>stable_hardware_id\<close>
  comes right after the name is settled; when it raises, so does the translator, and
  no record is built.
\<close>

definition translate_packet ::
  "pylib \<Rightarrow> config \<Rightarrow> int \<Rightarrow> dict \<Rightarrow> exn + sensor \<times> reading" where
  "translate_packet L C now_utc pkt =
     (let name0 = get pkt (py_str ''name'');
          sensor_id_fallback = get pkt (py_str ''sensor_id'');
          name1 =
            (case name0 of
               JStr s \<Rightarrow>
                 if s \<noteq> [] then s
                 else py_str ''tx-'' @ (if sensor_id_fallback \<noteq> JNull
                                        then format_value L sensor_id_fallback
                                        else py_str ''unknown'')
             | _ \<Rightarrow> py_str ''tx-'' @ (if sensor_id_fallback \<noteq> JNull
                                       then format_value L sensor_id_fallback
                                       else py_str ''unknown''))
      in case stable_hardware_id L name1 of
           Inl e \<Rightarrow> Inl e
         | Inr hw \<Rightarrow>
             let gps_lat = get pkt (py_str ''gps_lat'');
                 gps_long = get pkt (py_str ''gps_long'');
                 lat = (if isinstance_int_float gps_lat then gps_lat
                        else float_or_none (DEFAULT_LAT C));
                 lon = (if isinstance_int_float gps_long then gps_long
                        else float_or_none (DEFAULT_LON C));
                 sensor_type_val =
                   (if isinstance_str (get pkt (py_str ''sensor_type''))
                    then get pkt (py_str ''sensor_type'') else JNull)
             in Inr (\<lparr> hardware_id = hw,
                        name = name1,
                        sensor_type = sensor_type_val,
                        gps_latitude = lat,
                        gps_longitude = lon,
                        metadata = [(py_str ''source'', JStr (py_str ''radio'')),
                                    (py_str ''net'', get pkt (py_str ''net''))] \<rparr>,
                     \<lparr> sensor_id = hw,
                        ts = now_utc,
                        sequence = get pkt (py_str ''sequence''),
                        temperature_c = get pkt (py_str ''temperature_c''),
                        humidity_pct = get pkt (py_str ''humidity_pct''),
                        capacitance_val = get pkt (py_str ''capacitance_val''),
                        battery_v = get pkt (py_str ''battery_v''),
                        rssi_dbm = get pkt (py_str ''rssi_dbm'') \<rparr>))"

text \<open>
  The library functions as CPython computes them, for running a property on a
  concrete packet. \<open>utf8_encode\<close> is \<^verbatim>\<open>str.encode("utf-8")\<close>: one to four bytes for a
  code point, and \<^verbatim>\<open>UnicodeEncodeError\<close> for a surrogate, \<^verbatim>\<open>U+D800\<close> to \<^verbatim>\<open>U+DFFF\<close>.
  \<open>crc32_ieee\<close> is \<^verbatim>\<open>binascii.crc32\<close>: the reflected CRC-32 with polynomial
  \<^verbatim>\<open>0xEDB88320\<close>, bit by bit. The formatting is right on strings; no property in
  this file runs it on another value.
\<close>

definition is_surrogate :: "nat \<Rightarrow> bool" where
  "is_surrogate cp \<longleftrightarrow> 0xD800 \<le> cp \<and> cp \<le> 0xDFFF"

definition utf8_char :: "nat \<Rightarrow> exn + int list" where
  "utf8_char cp =
     (if cp < 0x80 then Inr [int cp]
      else if cp < 0x800 then Inr [0xC0 + int (cp div 64), 0x80 + int (cp mod 64)]
      else if is_surrogate cp then Inl UnicodeEncodeError
      else if cp < 0x10000 then
        Inr [0xE0 + int (cp div 4096), 0x80 + int (cp div 64 mod 64), 0x80 + int (cp mod 64)]
      else
        Inr [0xF0 + int (cp div 262144), 0x80 + int (cp div 4096 mod 64),
             0x80 + int (cp div 64 mod 64), 0x80 + int (cp mod 64)])"

fun utf8_encode :: "ustr \<Rightarrow> exn + int list" where
  "utf8_encode [] = Inr []"
| "utf8_encode (cp # cps) =
     (case utf8_char cp of
        Inl e \<Rightarrow> Inl e
      | Inr bs \<Rightarrow>
          (case utf8_encode cps of
             Inl e \<Rightarrow> Inl e
           | Inr rest \<Rightarrow> Inr (bs @ rest)))"

definition crc32_step :: "int \<Rightarrow> int" where
  "crc32_step c = (if odd c then drop_bit 1 c XOR 0xEDB88320 else drop_bit 1 c)"

definition crc32_byte :: "int \<Rightarrow> int \<Rightarrow> int" where
  "crc32_byte c b =
     crc32_step (crc32_step (crc32_step (crc32_step
       (crc32_step (crc32_step (crc32_step (crc32_step (c XOR b))))))))"

definition crc32_ieee :: "int list \<Rightarrow> int" where
  "crc32_ieee bs = foldl crc32_byte 0xFFFFFFFF bs XOR 0xFFFFFFFF"

definition pylib_stub :: pylib where
  "pylib_stub =
     \<lparr> crc32 = crc32_ieee,
       encode_utf8 = utf8_encode,
       format_value = (\<lambda>v. case v of JStr s \<Rightarrow> s | _ \<Rightarrow> py_str ''?'') \<rparr>"

section \<open>Relay switcher start\<close>

text \<open>
  \<^verbatim>\<open>start_bt_switcher\<close> either returns \<^verbatim>\<open>None\<close> or creates, starts and returns a
  daemon thread named \<^verbatim>\<open>starlink-ble\<close> that runs \<^verbatim>\<open>_bt_switch_loop\<close> on the
  arguments. The state is the list of threads started so far. The minutes are
  floats, as \<^verbatim>\<open>load_config\<close> reads them with \<^verbatim>\<open>float(...)\<close>; \<^verbatim>\<open>not mac\<close> holds of
  \<^verbatim>\<open>None\<close> and of the empty string.
\<close>

record thread =
  thread_name :: string
  daemon :: bool
  uptime_m :: pyfloat
  downtime_m :: pyfloat
  mac_addr :: "string option"
  relay_password :: int

definition start_bt_switcher ::
  "pyfloat \<Rightarrow> pyfloat \<Rightarrow> string option \<Rightarrow> int \<Rightarrow> thread list \<Rightarrow> thread option \<times> thread list" where
  "start_bt_switcher starlink_uptime_mins starlink_downtime_mins mac password started =
     (if float_le_int starlink_uptime_mins 0 \<or> float_le_int starlink_downtime_mins 0
         \<or> mac = None \<or> mac = Some []
      then (None, started)
      else let t = \<lparr> thread_name = ''starlink-ble'', daemon = True,
                     uptime_m = starlink_uptime_mins, downtime_m = starlink_downtime_mins,
                     mac_addr = mac, relay_password = password \<rparr>
           in (Some t, started @ [t]))"

section \<open>Delivery queue: properties\<close>

lemma dequeue_loop_eq:
  "dequeue_loop n out q =
     (out @ take (nat (n - int (length out))) q, drop (nat (n - int (length out))) q)"
proof (induction q arbitrary: out)
  case Nil
  show ?case by simp
next
  case (Cons x q)
  show ?case
  proof (cases "int (length out) < n")
    case True
    then have "nat (n - int (length out)) = Suc (nat (n - int (length (out @ [x]))))"
      by simp
    with True Cons show ?thesis by simp
  next
    case False
    then show ?thesis by simp
  qed
qed

lemma enqueue_all_eq: "enqueue_all q items = q @ items"
  by (induction items arbitrary: q) (simp_all add: enqueue_def)

lemma requeue_eq: "requeue q items = q @ rev items"
  by (simp add: requeue_def enqueue_all_eq)

text \<open>
  C2. For every queue and every non-negative \<open>max_items\<close>, \<open>dequeue_batch\<close> returns
  the \<open>min max_items (length q)\<close> oldest items in enqueue order and leaves exactly the
  remaining items, in order, in the queue; on an empty queue it returns nothing.
\<close>

theorem dequeue_batch_fifo:
  fixes q :: "'a list"
  assumes "0 \<le> n"
  shows "fst (dequeue_batch q n) = take (nat n) q
       \<and> snd (dequeue_batch q n) = drop (nat n) q
       \<and> length (fst (dequeue_batch q n)) = min (nat n) (length q)
       \<and> fst (dequeue_batch q n) @ snd (dequeue_batch q n) = q
       \<and> dequeue_batch ([] :: 'a list) n = ([], [])"
  by (simp add: dequeue_batch_def dequeue_loop_eq min.commute)

theorem dequeue_batch_fifo_witness:
  "(0::int) \<le> 2
   \<and> fst (dequeue_batch [10, 20, 30 :: nat] 2) = [10, 20]
   \<and> snd (dequeue_batch [10, 20, 30 :: nat] 2) = [30]
   \<and> fst (dequeue_batch [10 :: nat] 2) = [10]
   \<and> snd (dequeue_batch [10 :: nat] 2) = []"
  using dequeue_batch_fifo [of 2 "[10, 20, 30 :: nat]"]
        dequeue_batch_fifo [of 2 "[10 :: nat]"]
  by simp

lemma flush_tick_failed_eq:
  "flush_tick False n arrived q =
     (if take (nat n) q = [] then drop (nat n) q
      else drop (nat n) q @ arrived @ rev (take (nat n) q))"
  by (simp add: flush_tick_def dequeue_batch_def dequeue_loop_eq requeue_eq enqueue_all_eq)

lemma flush_tick_failed_no_loss:
  "mset (flush_tick False n arrived q) =
     mset q + (if take (nat n) q = [] then {#} else mset arrived)"
proof -
  have "mset (take (nat n) q) + mset (drop (nat n) q) = mset q"
    by (simp flip: mset_append)
  then have "mset (drop (nat n) q) + mset arrived + mset (take (nat n) q) = mset q + mset arrived"
    by (simp add: ac_simps)
  then show ?thesis
    by (auto simp: flush_tick_failed_eq)
qed

text \<open>
  C1. After a failed flush the batch is to be back in the queue in its original
  order, ahead of newer items. The code iterates the batch in reverse and appends
  each item at the tail: with the queue \<open>[1, 2, 3]\<close>, a batch size of 2 and item \<open>4\<close>
  arriving during the flush, the queue afterwards is \<open>[3, 4, 2, 1]\<close>: the retried items
  \<open>1, 2\<close> are behind the newer ones and in reverse order. No item is lost.
\<close>

theorem flush_failure_requeues_reversed_at_tail:
  "flush_tick False 2 [4] [1, 2, 3 :: nat] = [3, 4, 2, 1]
   \<and> flush_tick False 2 [] [1, 2 :: nat] = [2, 1]"
  by (simp add: flush_tick_failed_eq)

section \<open>Frame codec: properties\<close>

lemma xor_loop_eq: "xor_loop x bs = x XOR xor_of bs"
  by (induction bs arbitrary: x) (simp_all add: xor.assoc)

lemma is_byte_and_255: "is_byte (k AND 0xFF)"
  by (simp add: is_byte_def AND_upper2' [of 255 255 k, simplified] )

lemma is_byte_xor: "is_byte a \<Longrightarrow> is_byte b \<Longrightarrow> is_byte (a XOR b)"
  unfolding is_byte_def using XOR_upper [of a 8 b] by simp

lemma is_byte_xor_of: "list_all is_byte bs \<Longrightarrow> is_byte (xor_of bs)"
  by (induction bs) (simp_all add: is_byte_xor, simp add: is_byte_def)

lemma xor_cancel_int: "(a XOR b = a XOR c) \<longleftrightarrow> b = (c::int)"
  by (metis xor.assoc xor_self_eq xor.left_neutral)

lemma xor_of_append: "xor_of (xs @ ys) = xor_of xs XOR xor_of ys"
  by (induction xs) (simp_all add: xor.assoc)

lemma xor_of_update:
  "i < length bs \<Longrightarrow> xor_of (bs[i := v]) = xor_of bs XOR (bs ! i) XOR v"
proof (induction bs arbitrary: i)
  case Nil then show ?case by simp
next
  case (Cons b bs)
  show ?case
  proof (cases i)
    case 0
    then show ?thesis by (simp add: xor.commute xor.left_commute)
  next
    case (Suc j)
    with Cons show ?thesis by (simp add: xor.assoc)
  qed
qed

lemma and_255_eq_mod: "(k::int) AND 0xFF = k mod 256"
proof -
  have "k AND mask 8 = take_bit 8 k" by (simp add: take_bit_eq_mask)
  then show ?thesis by (simp add: mask_eq_exp_minus_1 take_bit_eq_mod)
qed

lemma password_big_endian:
  assumes "0 \<le> p" "p \<le> 0xFFFF"
  shows "256 * (drop_bit 8 p AND 0xFF) + (p AND 0xFF) = (p::int)"
proof -
  have "drop_bit 8 p = p div 256" by (simp add: drop_bit_eq_div)
  moreover from assms have "p div 256 < 256" by simp
  moreover from assms have "0 \<le> p div 256" by simp
  ultimately have "drop_bit 8 p AND 0xFF = p div 256"
    by (simp add: and_255_eq_mod)
  then show ?thesis by (simp add: and_255_eq_mod)
qed

lemma frame_eq:
  "frame password opcode content =
     (if is_byte opcode \<and> list_all is_byte content
      then Inr ([0xA1, drop_bit 8 password AND 0xFF, password AND 0xFF, opcode] @ content @
                [xor_of ([0xA1, drop_bit 8 password AND 0xFF, password AND 0xFF, opcode] @ content), 0xAA])
      else Inl ValueError)"
proof -
  have h: "list_all is_byte [0xA1, drop_bit 8 password AND 0xFF, password AND 0xFF]"
    using is_byte_and_255 by (simp add: is_byte_def)
  show ?thesis
  proof (cases "is_byte opcode \<and> list_all is_byte content")
    case True
    then have "list_all is_byte ([0xA1, drop_bit 8 password AND 0xFF, password AND 0xFF, opcode] @ content)"
      using h by simp
    then have "is_byte (xor_of ([0xA1, drop_bit 8 password AND 0xFF, password AND 0xFF, opcode] @ content))"
      by (rule is_byte_xor_of)
    moreover have "is_byte 0xAA" by (simp add: is_byte_def)
    ultimately show ?thesis
      using True h by (simp add: frame_def bytearray_def bytearray_extend_def xor_loop_eq Let_def)
  next
    case False
    then show ?thesis
      using h by (auto simp add: frame_def bytearray_def bytearray_extend_def)
  qed
qed

lemma build_frame_eq_frame: "build_frame PWD opcode content = frame PWD opcode content"
proof -
  have h: "list_all is_byte [0xA1, drop_bit 8 PWD AND 0xFF, PWD AND 0xFF]"
    using is_byte_and_255 by (simp add: is_byte_def)
  show ?thesis
  proof (cases "is_byte opcode \<and> list_all is_byte content")
    case True
    then have "list_all is_byte ([0xA1, drop_bit 8 PWD AND 0xFF, PWD AND 0xFF, opcode] @ content)"
      using h by simp
    then have "is_byte (xor_of ([0xA1, drop_bit 8 PWD AND 0xFF, PWD AND 0xFF, opcode] @ content))"
      by (rule is_byte_xor_of)
    moreover have "is_byte 0xAA" by (simp add: is_byte_def)
    ultimately show ?thesis
      using True h by (simp add: frame_eq build_frame_def bytearray_def xor_loop_eq Let_def)
  next
    case False
    then show ?thesis
      using h by (auto simp add: frame_eq build_frame_def bytearray_def)
  qed
qed

lemma checksum_holds_snoc2: "checksum_holds (body @ [c, t]) \<longleftrightarrow> c = xor_of body"
  by (simp add: checksum_holds_def nth_append)

lemma xor_of_update_neq:
  assumes "i < length bs" "v \<noteq> bs ! i"
  shows "xor_of (bs[i := v]) \<noteq> xor_of bs"
proof
  assume "xor_of (bs[i := v]) = xor_of bs"
  with assms(1) have "xor_of bs XOR (bs ! i XOR v) = xor_of bs XOR 0"
    by (simp add: xor_of_update xor.assoc)
  then have "bs ! i XOR v = 0" by (simp only: xor_cancel_int)
  then have "bs ! i XOR v = bs ! i XOR bs ! i" by simp
  then have "v = bs ! i" by (simp only: xor_cancel_int)
  with assms(2) show False by simp
qed

lemma change_breaks_checksum:
  assumes "i < length body + 1" "v \<noteq> (body @ [xor_of body, t]) ! i"
  shows "\<not> checksum_holds ((body @ [xor_of body, t])[i := v])"
proof (cases "i < length body")
  case True
  with assms(2) have "v \<noteq> body ! i" by (simp add: nth_append)
  with True have "xor_of (body[i := v]) \<noteq> xor_of body" by (rule xor_of_update_neq)
  moreover from True have "(body @ [xor_of body, t])[i := v] = body[i := v] @ [xor_of body, t]"
    by (simp add: list_update_append)
  ultimately show ?thesis
    using checksum_holds_snoc2 [of "body[i := v]" "xor_of body" t] by simp
next
  case False
  with assms(1) have i: "i = length body" by simp
  with assms(2) have "v \<noteq> xor_of body" by (simp add: nth_append)
  moreover from i have "(body @ [xor_of body, t])[i := v] = body @ [v, t]"
    by (simp add: list_update_append)
  ultimately show ?thesis by (simp add: checksum_holds_snoc2)
qed

text \<open>
  C3. For every password, every opcode in \<open>0..255\<close> and every content byte sequence,
  encoding succeeds and returns \<open>0xA1\<close>, the two password bytes, the opcode, the
  content, the XOR of all these bytes and \<open>0xAA\<close>: \<open>length content + 6\<close> bytes.
  \<^verbatim>\<open>build_frame\<close> returns the same frame. For a password in \<open>0..0xFFFF\<close> the two
  password bytes are its big-endian digits. Neither the bound on the password nor a
  bound on the length of the content is needed.
\<close>

theorem frame_layout:
  assumes "0 \<le> opcode" "opcode \<le> 255" "list_all is_byte content"
  shows "frame password opcode content =
           Inr ([0xA1, drop_bit 8 password AND 0xFF, password AND 0xFF, opcode] @ content @
                [xor_of ([0xA1, drop_bit 8 password AND 0xFF, password AND 0xFF, opcode] @ content), 0xAA])
       \<and> (\<forall>f. frame password opcode content = Inr f \<longrightarrow> length f = length content + 6)
       \<and> build_frame password opcode content = frame password opcode content
       \<and> (0 \<le> password \<and> password \<le> 0xFFFF \<longrightarrow>
            256 * (drop_bit 8 password AND 0xFF) + (password AND 0xFF) = password)"
  using assms password_big_endian [of password]
  by (simp add: frame_eq build_frame_eq_frame is_byte_def)

theorem frame_layout_witness:
  "(0::int) \<le> 1 \<and> (1::int) \<le> 255 \<and> list_all is_byte [1]
   \<and> frame 0x04D2 1 [1] = Inr [0xA1, 0x04, 0xD2, 0x01, 0x01, 0x77, 0xAA]
   \<and> build_frame 0x04D2 1 [1] = Inr [0xA1, 0x04, 0xD2, 0x01, 0x01, 0x77, 0xAA]"
  using frame_layout [of 1 "[1]" "0x04D2"]
  by (simp add: is_byte_def)

text \<open>
  C4, as amended. In every encoded frame the checksum byte is the XOR of \<open>0xA1\<close>, the
  two password bytes, the opcode and the content, so the checksum relation holds;
  and replacing any single byte other than the final terminator (a covered byte or
  the checksum byte itself) by a different value makes the relation fail.
\<close>

theorem frame_checksum_detects_change:
  assumes "frame password opcode content = Inr f"
  shows "f ! (length content + 4) =
           xor_of ([0xA1, drop_bit 8 password AND 0xFF, password AND 0xFF, opcode] @ content)
       \<and> checksum_holds f
       \<and> (\<forall>i v. i < length f - 1 \<and> v \<noteq> f ! i \<longrightarrow> \<not> checksum_holds (f[i := v]))"
proof -
  let ?body = "[0xA1, drop_bit 8 password AND 0xFF, password AND 0xFF, opcode] @ content"
  from assms have f: "f = ?body @ [xor_of ?body, 0xAA]"
    by (simp add: frame_eq split: if_splits)
  have 1: "f ! (length content + 4) = xor_of ?body"
    unfolding f by (simp add: nth_append)
  have 2: "checksum_holds f"
    unfolding f by (simp only: checksum_holds_snoc2)
  have 3: "\<not> checksum_holds (f[i := v])" if "i < length f - 1" "v \<noteq> f ! i" for i v
  proof -
    from that(1) have "i < length ?body + 1" unfolding f by simp
    moreover from that(2) have "v \<noteq> (?body @ [xor_of ?body, 0xAA]) ! i" unfolding f .
    ultimately show ?thesis unfolding f by (rule change_breaks_checksum)
  qed
  from 1 2 3 show ?thesis by blast
qed

text \<open>
  C4 as stated fails at the terminator, which the checksum does not cover: in the
  "ON now" frame for password 1234 and channel 1, replacing the final \<open>0xAA\<close> by
  \<open>0\<close> changes the frame and leaves the checksum relation true.
\<close>

theorem frame_terminator_change_keeps_checksum:
  "frame 0x04D2 1 [1] = Inr [0xA1, 0x04, 0xD2, 0x01, 0x01, 0x77, 0xAA]
   \<and> [0xA1, 0x04, 0xD2, 0x01, 0x01, 0x77, 0xAA :: int][6 := 0] \<noteq> [0xA1, 0x04, 0xD2, 0x01, 0x01, 0x77, 0xAA]
   \<and> checksum_holds ([0xA1, 0x04, 0xD2, 0x01, 0x01, 0x77, 0xAA][6 := 0])"
  by (simp add: frame_def bytearray_def bytearray_extend_def is_byte_def checksum_holds_def)

theorem frame_checksum_detects_change_witness:
  "frame 0x04D2 1 [1] = Inr [0xA1, 0x04, 0xD2, 0x01, 0x01, 0x77, 0xAA]
   \<and> checksum_holds [0xA1, 0x04, 0xD2, 0x01, 0x01, 0x77, 0xAA]
   \<and> \<not> checksum_holds ([0xA1, 0x04, 0xD2, 0x01, 0x01, 0x77, 0xAA][3 := 2])
   \<and> \<not> checksum_holds ([0xA1, 0x04, 0xD2, 0x01, 0x01, 0x77, 0xAA][5 := 0])"
proof -
  let ?f = "[0xA1, 0x04, 0xD2, 0x01, 0x01, 0x77, 0xAA] :: int list"
  have e: "frame 0x04D2 1 [1] = Inr ?f"
    by (simp add: frame_def bytearray_def bytearray_extend_def is_byte_def)
  note t = frame_checksum_detects_change [OF e]
  from t have a: "checksum_holds ?f" by blast
  from t have "3 < length ?f - 1 \<and> 2 \<noteq> ?f ! 3 \<longrightarrow> \<not> checksum_holds (?f[3 := 2])"
    by blast
  then have b: "\<not> checksum_holds (?f[3 := 2])" by simp
  from t have "5 < length ?f - 1 \<and> 0 \<noteq> ?f ! 5 \<longrightarrow> \<not> checksum_holds (?f[5 := 0])"
    by blast
  then have c: "\<not> checksum_holds (?f[5 := 0])" by simp
  from e a b c show ?thesis by blast
qed

section \<open>Packet parser: properties\<close>

lemma not_isspace_special:
  "\<not> isspace CHR ''{''" "\<not> isspace CHR ''}''" "\<not> isspace CHR ''|''" "\<not> isspace CHR ''#''"
  by (simp_all add: isspace_def)

lemma rstrip_append_nonspace: "\<not> isspace c \<Longrightarrow> rstrip (xs @ c # ys) = xs @ c # rstrip ys"
  by (simp add: rstrip_def dropWhile_append3)

lemma rstrip_Cons_nonspace: "\<not> isspace c \<Longrightarrow> rstrip (c # ys) = c # rstrip ys"
  using rstrip_append_nonspace [of c "[]" ys] by simp

lemma rstrip_idem: "rstrip (rstrip s) = rstrip s"
  by (simp add: rstrip_def)

lemma lstrip_cases:
  obtains (blank) "list_all isspace s" "lstrip s = []"
  | (nonblank) ws c rest where "s = ws @ c # rest" "list_all isspace ws" "\<not> isspace c" "lstrip s = c # rest"
proof (cases "lstrip s")
  case Nil
  then have "list_all isspace s"
    by (simp add: lstrip_def dropWhile_eq_Nil_conv list_all_iff)
  with Nil show ?thesis by (auto intro: blank)
next
  case (Cons c rest)
  have s: "s = takeWhile isspace s @ c # rest"
    using Cons takeWhile_dropWhile_id [of isspace s] by (simp add: lstrip_def)
  have "\<not> isspace c"
    using Cons hd_dropWhile [of isspace s] by (auto simp: lstrip_def)
  moreover have "list_all isspace (takeWhile isspace s)"
    by (auto simp: list_all_iff dest: set_takeWhileD)
  ultimately show ?thesis using s Cons by (auto intro: nonblank)
qed

lemma lstrip_prefix: "list_all isspace ws \<Longrightarrow> \<not> isspace c \<Longrightarrow> lstrip (ws @ c # rest) = c # rest"
  by (simp add: lstrip_def dropWhile_append3 list_all_iff)

lemma rstrip_blank: "list_all isspace s \<Longrightarrow> rstrip s = []"
  by (simp add: rstrip_def list_all_iff)

lemma strip_blank:
  assumes "list_all isspace s"
  shows "strip s = []"
proof -
  from assms have "lstrip s = []"
    by (simp add: lstrip_def list_all_iff)
  then show ?thesis by (simp add: strip_def rstrip_def)
qed

lemma strip_text:
  "list_all isspace ws \<Longrightarrow> \<not> isspace c \<Longrightarrow> strip (ws @ c # rest) = c # rstrip rest"
  by (simp add: strip_def lstrip_prefix rstrip_Cons_nonspace)

lemma strip_Nil_iff: "strip s = [] \<longleftrightarrow> list_all isspace s"
  by (cases s rule: lstrip_cases) (auto simp: strip_blank strip_text)

lemma hd_strip: "strip s \<noteq> [] \<Longrightarrow> hd (strip s) = hd (dropWhile isspace s)"
  by (cases s rule: lstrip_cases) (auto simp: strip_blank strip_text lstrip_def)

lemma strip_rstrip: "strip (rstrip s) = strip s"
proof (cases s rule: lstrip_cases)
  case blank
  then show ?thesis by (simp add: rstrip_blank strip_blank)
next
  case (nonblank ws c rest)
  then show ?thesis
    by (simp add: rstrip_append_nonspace strip_text rstrip_idem)
qed

lemma in_set_strip_iff:
  assumes "\<not> isspace c"
  shows "c \<in> set (strip s) \<longleftrightarrow> c \<in> set s"
proof
  assume "c \<in> set (strip s)"
  then have "c \<in> set (lstrip s)"
    unfolding strip_def rstrip_def using set_dropWhileD [of c isspace "rev (lstrip s)"] by simp
  then show "c \<in> set s" unfolding lstrip_def by (rule set_dropWhileD)
next
  assume "c \<in> set s"
  then obtain xs ys where s: "s = xs @ c # ys" by (auto dest: split_list)
  show "c \<in> set (strip s)"
  proof (cases "list_all isspace xs")
    case True
    with assms show ?thesis by (simp add: s strip_text)
  next
    case False
    then obtain ws d rest where xs: "xs = ws @ d # rest" "list_all isspace ws" "\<not> isspace d"
      by (cases xs rule: lstrip_cases) auto
    then have "strip s = d # rstrip (rest @ c # ys)" by (simp add: s strip_text)
    with assms show ?thesis by (simp add: rstrip_append_nonspace)
  qed
qed

lemma after_first_bar_append:
  assumes "CHR ''|'' \<notin> set a"
  shows "after_first_bar (a @ CHR ''|'' # b) = b"
proof -
  from assms have "dropWhile (\<lambda>c. c \<noteq> CHR ''|'') a = []"
    by auto
  then show ?thesis
    by (simp add: after_first_bar_def dropWhile_append3)
qed

lemma after_first_bar_lstrip: "after_first_bar (lstrip s) = after_first_bar s"
proof (cases s rule: lstrip_cases)
  case blank
  then have "\<forall>x\<in>set s. x \<noteq> CHR ''|''"
    using not_isspace_special(3) by (auto simp: list_all_iff)
  then have d: "dropWhile (\<lambda>c. c \<noteq> CHR ''|'') s = []" by simp
  show ?thesis unfolding after_first_bar_def d blank(2) by simp
next
  case (nonblank ws c rest)
  then have "\<forall>x\<in>set ws. x \<noteq> CHR ''|''"
    using not_isspace_special(3) by (auto simp: list_all_iff)
  then have "dropWhile (\<lambda>c. c \<noteq> CHR ''|'') (ws @ c # rest) = dropWhile (\<lambda>c. c \<noteq> CHR ''|'') (c # rest)"
    by (simp add: dropWhile_append2)
  with nonblank show ?thesis by (simp add: after_first_bar_def)
qed

lemma strip_after_first_bar:
  assumes "CHR ''|'' \<in> set line"
  shows "strip (after_first_bar (strip line)) = strip (after_first_bar line)"
proof -
  from assms have "CHR ''|'' \<in> set (lstrip line)"
    unfolding lstrip_def
    by (induction line) (auto simp: not_isspace_special)
  then obtain a b where t: "lstrip line = a @ CHR ''|'' # b" "CHR ''|'' \<notin> set a"
    by (auto dest: split_list_first)
  then have "strip line = a @ CHR ''|'' # rstrip b"
    by (simp add: strip_def rstrip_append_nonspace not_isspace_special)
  with t(2) have "after_first_bar (strip line) = rstrip b"
    by (simp add: after_first_bar_append)
  moreover from t have "after_first_bar line = b"
    using after_first_bar_lstrip [of line] by (simp add: after_first_bar_append)
  ultimately show ?thesis by (simp add: strip_rstrip)
qed


lemma getitem_split1:
  "CHR ''|'' \<in> set s \<Longrightarrow> getitem (split1 s CHR ''|'') (Suc 0) = Inr (after_first_bar s)"
  by (simp add: getitem_def split1_def after_first_bar_def)

lemma extract_json_text_eq:
  "extract_json_text line =
     (if strip line = [] \<or> startswith (strip line) ''#'' then None
      else if startswith (strip line) ''{'' \<and> endswith (strip line) ''}'' then Some (strip line)
      else if CHR ''|'' \<in> set line \<and> startswith (strip (after_first_bar line)) ''{''
                \<and> endswith (strip (after_first_bar line)) ''}''
        then Some (strip (after_first_bar line))
      else None)"
proof (cases "CHR ''|'' \<in> set line")
  case True
  then have "CHR ''|'' \<in> set (strip line)"
    by (simp add: in_set_strip_iff not_isspace_special)
  with True show ?thesis
    by (simp add: extract_json_text_def Let_def getitem_split1 strip_after_first_bar)
next
  case False
  then have "CHR ''|'' \<notin> set (strip line)"
    by (simp add: in_set_strip_iff not_isspace_special)
  with False show ?thesis
    by (simp add: extract_json_text_def Let_def)
qed

lemma startswith_nonempty: "startswith t (c # p) \<Longrightarrow> t \<noteq> []"
  by (auto simp: startswith_def)

lemma extract_json_text_nonempty: "extract_json_text line = Some t \<Longrightarrow> t \<noteq> []"
  by (auto simp: extract_json_text_eq split: if_splits dest: startswith_nonempty)

lemma parse_of_extract_None:
  "extract_json_text line = None \<Longrightarrow> parse_line_to_packet json_loads line = Inr None"
  by (simp add: parse_line_to_packet_def)

lemma parse_of_extract_Some:
  assumes "extract_json_text line = Some t" "decodes_to json_loads t r"
  shows "parse_line_to_packet json_loads line = Inr r"
proof -
  from assms(1) have "t \<noteq> []" by (rule extract_json_text_nonempty)
  with assms show ?thesis
    by (auto simp: parse_line_to_packet_def decodes_to_def split: sum.splits json.splits)
qed

lemma startswith_hash_brace: "startswith t ''{'' \<Longrightarrow> \<not> startswith t ''#'' \<and> t \<noteq> []"
  by (auto simp: startswith_def)

lemmas parser_eval =
  parse_line_to_packet_def extract_json_text_def strip_def lstrip_def rstrip_def
  startswith_def endswith_def split1_def getitem_def isspace_def

text \<open>
  The rules of the parser, for every line and every behaviour of \<^verbatim>\<open>json.loads\<close>, read
  in order: (1) a line that is empty after trimming, or whose trimmed text starts with
  \<open>#\<close>, gives none; (2) a trimmed line that starts with \<open>{\<close> and ends with \<open>}\<close> gives
  the outcome of decoding it: the object, or none on \<^verbatim>\<open>JSONDecodeError\<close> or a value
  that is not an object; (3) otherwise a line that contains \<open>|\<close> and whose trimmed
  part after the first \<open>|\<close> starts with \<open>{\<close> and ends with \<open>}\<close> gives the outcome of
  decoding that part; (4) every line that falls under neither (2) nor (3) gives none.
  The trimmed line is empty exactly when the line is all whitespace, and its first
  character is the first non-whitespace character of the line. The five lines of the
  acceptance list come out as listed, the two that reach the decoder under the
  assumption that \<^verbatim>\<open>json.loads\<close> decodes their text to the object shown. Nothing is
  said here of a text on which \<^verbatim>\<open>json.loads\<close> raises another exception.
\<close>

lemma parse_line_to_packet_rules:
  fixes json_loads :: "string \<Rightarrow> exn + json" and line :: string
  shows
   "((strip line = [] \<or> startswith (strip line) ''#'' \<longrightarrow>
       parse_line_to_packet json_loads line = Inr None)
  \<and> (startswith (strip line) ''{'' \<and> endswith (strip line) ''}'' \<longrightarrow>
       (\<forall>r. decodes_to json_loads (strip line) r \<longrightarrow>
            parse_line_to_packet json_loads line = Inr r))
  \<and> (strip line \<noteq> [] \<and> \<not> startswith (strip line) ''#''
       \<and> \<not> (startswith (strip line) ''{'' \<and> endswith (strip line) ''}'')
       \<and> CHR ''|'' \<in> set line
       \<and> startswith (strip (after_first_bar line)) ''{''
       \<and> endswith (strip (after_first_bar line)) ''}'' \<longrightarrow>
       (\<forall>r. decodes_to json_loads (strip (after_first_bar line)) r \<longrightarrow>
            parse_line_to_packet json_loads line = Inr r))
  \<and> (\<not> (startswith (strip line) ''{'' \<and> endswith (strip line) ''}'')
       \<and> (CHR ''|'' \<notin> set line
            \<or> \<not> (startswith (strip (after_first_bar line)) ''{''
                   \<and> endswith (strip (after_first_bar line)) ''}'')) \<longrightarrow>
       parse_line_to_packet json_loads line = Inr None)
  \<and> (strip line = [] \<longleftrightarrow> list_all isspace line)
  \<and> (strip line \<noteq> [] \<longrightarrow> hd (strip line) = hd (dropWhile isspace line)))
  \<and> ((json_loads ''{\"name\":\"a\",\"battery_v\":3.7}''
        = Inr (JDict [(py_str ''name'', JStr (py_str ''a'')), (py_str ''battery_v'', JFloat (Finite 3.7))]) \<longrightarrow>
      parse_line_to_packet json_loads ''{\"name\":\"a\",\"battery_v\":3.7}''
        = Inr (Some [(py_str ''name'', JStr (py_str ''a'')), (py_str ''battery_v'', JFloat (Finite 3.7))]))
  \<and> parse_line_to_packet json_loads ''# debug'' = Inr None
  \<and> (json_loads ''{\"name\":\"a\"}'' = Inr (JDict [(py_str ''name'', JStr (py_str ''a''))]) \<longrightarrow>
      parse_line_to_packet json_loads ''ok seq=1 | {\"name\":\"a\"}''
        = Inr (Some [(py_str ''name'', JStr (py_str ''a''))]))
  \<and> parse_line_to_packet json_loads ''{\"broken\"'' = Inr None
  \<and> parse_line_to_packet json_loads '''' = Inr None)"
  (is "?rules \<and> ?examples")
proof
  have 1: "parse_line_to_packet json_loads line = Inr None"
    if "strip line = [] \<or> startswith (strip line) ''#''"
    using that by (intro parse_of_extract_None) (simp add: extract_json_text_eq)
  have 2: "parse_line_to_packet json_loads line = Inr r"
    if "startswith (strip line) ''{'' \<and> endswith (strip line) ''}''"
       "decodes_to json_loads (strip line) r" for r
  proof -
    from that(1) have "extract_json_text line = Some (strip line)"
      using startswith_hash_brace [of "strip line"] by (simp add: extract_json_text_eq)
    then show ?thesis using that(2) by (rule parse_of_extract_Some)
  qed
  have 3: "parse_line_to_packet json_loads line = Inr r"
    if "strip line \<noteq> [] \<and> \<not> startswith (strip line) ''#''
       \<and> \<not> (startswith (strip line) ''{'' \<and> endswith (strip line) ''}'')
       \<and> CHR ''|'' \<in> set line
       \<and> startswith (strip (after_first_bar line)) ''{''
       \<and> endswith (strip (after_first_bar line)) ''}''"
       "decodes_to json_loads (strip (after_first_bar line)) r" for r
  proof -
    from that(1) have "extract_json_text line = Some (strip (after_first_bar line))"
      by (auto simp add: extract_json_text_eq)
    then show ?thesis using that(2) by (rule parse_of_extract_Some)
  qed
  have 4: "parse_line_to_packet json_loads line = Inr None"
    if "\<not> (startswith (strip line) ''{'' \<and> endswith (strip line) ''}'')
       \<and> (CHR ''|'' \<notin> set line
            \<or> \<not> (startswith (strip (after_first_bar line)) ''{''
                   \<and> endswith (strip (after_first_bar line)) ''}''))"
    using that by (intro parse_of_extract_None) (auto simp add: extract_json_text_eq)
  have 5: "strip line = [] \<longleftrightarrow> list_all isspace line" by (rule strip_Nil_iff)
  have 6: "hd (strip line) = hd (dropWhile isspace line)" if "strip line \<noteq> []"
    using that by (rule hd_strip)
  from 1 2 3 4 5 6 show ?rules by blast
next
  show ?examples by (simp add: parser_eval)
qed

lemma parse_line_to_packet_rules_run:
  "parse_line_to_packet json_loads_stub ''   '' = Inr None
   \<and> parse_line_to_packet json_loads_stub ''  # {\"name\":\"a\"}'' = Inr None
   \<and> parse_line_to_packet json_loads_stub '' {\"name\":\"a\"}  '' = Inr (Some [(py_str ''name'', JStr (py_str ''a''))])
   \<and> parse_line_to_packet json_loads_stub ''{1}'' = Inr None
   \<and> parse_line_to_packet json_loads_stub ''ok seq=1 | {\"name\":\"a\"}''
        = Inr (Some [(py_str ''name'', JStr (py_str ''a''))])
   \<and> parse_line_to_packet json_loads_stub ''a | b | {\"name\":\"a\"}'' = Inr None
   \<and> parse_line_to_packet json_loads_stub ''{1} | {\"name\":\"a\"}'' = Inr None
   \<and> parse_line_to_packet json_loads_stub ''hello'' = Inr None
   \<and> parse_line_to_packet json_loads_stub ''{\"name\":\"a\",\"battery_v\":3.7}''
        = Inr (Some [(py_str ''name'', JStr (py_str ''a'')), (py_str ''battery_v'', JFloat (Finite 3.7))])"
  using parse_line_to_packet_rules [of "''   ''" json_loads_stub]
        parse_line_to_packet_rules [of "''  # {\"name\":\"a\"}''" json_loads_stub]
        parse_line_to_packet_rules [of "'' {\"name\":\"a\"}  ''" json_loads_stub]
        parse_line_to_packet_rules [of "''{1}''" json_loads_stub]
        parse_line_to_packet_rules [of "''ok seq=1 | {\"name\":\"a\"}''" json_loads_stub]
        parse_line_to_packet_rules [of "''a | b | {\"name\":\"a\"}''" json_loads_stub]
        parse_line_to_packet_rules [of "''{1} | {\"name\":\"a\"}''" json_loads_stub]
        parse_line_to_packet_rules [of "''hello''" json_loads_stub]
  by (simp add: json_loads_stub_def decodes_to_def after_first_bar_def
        strip_def lstrip_def rstrip_def startswith_def endswith_def isspace_def)

text \<open>
  The parser returns, rather than raises, exactly when \<^verbatim>\<open>json.loads\<close> raises nothing
  but \<^verbatim>\<open>JSONDecodeError\<close> on the extracted text.
\<close>

lemma parse_line_to_packet_returns_iff:
  "(\<exists>r. parse_line_to_packet json_loads line = Inr r) \<longleftrightarrow>
     (\<forall>t e. extract_json_text line = Some t \<and> json_loads t = Inl e \<longrightarrow> e = JSONDecodeError)"
  by (cases "extract_json_text line")
     (auto simp: parse_line_to_packet_def dest: extract_json_text_nonempty
           split: sum.splits json.splits)

lemma strip_braced:
  "strip (CHR ''{'' # xs @ ''}'') = CHR ''{'' # xs @ ''}''"
proof -
  have "lstrip (CHR ''{'' # xs @ ''}'') = CHR ''{'' # xs @ ''}''"
    by (simp add: lstrip_def not_isspace_special)
  moreover have "rstrip ((CHR ''{'' # xs) @ CHR ''}'' # []) = (CHR ''{'' # xs) @ CHR ''}'' # rstrip []"
    using not_isspace_special(2) by (rule rstrip_append_nonspace)
  ultimately show ?thesis by (simp add: strip_def rstrip_def)
qed

lemma extract_json_text_braced:
  "extract_json_text (CHR ''{'' # xs @ ''}'') = Some (CHR ''{'' # xs @ ''}'')"
  by (simp add: extract_json_text_eq strip_braced startswith_def endswith_def)

text \<open>
  C6. The parser is to return a packet or none on every line and never to raise. Its
  only handler around \<^verbatim>\<open>json.loads\<close> is \<^verbatim>\<open>except json.JSONDecodeError\<close>: whenever
  \<^verbatim>\<open>json.loads\<close> raises another exception on the extracted text, as it does with
  \<^verbatim>\<open>RecursionError\<close> on deeply nested brackets and with \<^verbatim>\<open>ValueError\<close> on an integer
  literal beyond the interpreter's digit limit, that exception leaves
  \<^verbatim>\<open>parse_line_to_packet\<close>. In particular the line made of \<^verbatim>\<open>{"a":\<close>, any number
  of opening brackets and \<^verbatim>\<open>}\<close> reaches \<^verbatim>\<open>json.loads\<close> unchanged, and a
  \<^verbatim>\<open>RecursionError\<close> raised there is raised by the parser.
\<close>

theorem parse_line_to_packet_uncaught:
  fixes json_loads :: "string \<Rightarrow> exn + json"
  shows
   "(\<forall>t e. extract_json_text line = Some t \<and> json_loads t = Inl e \<and> e \<noteq> JSONDecodeError \<longrightarrow>
        parse_line_to_packet json_loads line = Inl e)
  \<and> (json_loads (''{\"a\":'' @ replicate n CHR ''['' @ ''}'') = Inl RecursionError \<longrightarrow>
        parse_line_to_packet json_loads (''{\"a\":'' @ replicate n CHR ''['' @ ''}'')
          = Inl RecursionError)"
proof -
  have 1: "parse_line_to_packet json_loads l = Inl e"
    if "extract_json_text l = Some t" "json_loads t = Inl e" "e \<noteq> JSONDecodeError" for l t e
  proof -
    from that(1) have "t \<noteq> []" by (rule extract_json_text_nonempty)
    with that show ?thesis by (simp add: parse_line_to_packet_def)
  qed
  have "extract_json_text (''{\"a\":'' @ replicate n CHR ''['' @ ''}'')
          = Some (''{\"a\":'' @ replicate n CHR ''['' @ ''}'')"
    using extract_json_text_braced [of "''\"a\":'' @ replicate n CHR ''[''"] by simp
  then have 2: "parse_line_to_packet json_loads (''{\"a\":'' @ replicate n CHR ''['' @ ''}'')
          = Inl RecursionError"
    if "json_loads (''{\"a\":'' @ replicate n CHR ''['' @ ''}'') = Inl RecursionError"
    using that by (intro 1) simp_all
  from 1 2 show ?thesis by blast
qed

theorem parse_line_to_packet_uncaught_witness:
  "json_loads_stub (''{\"a\":'' @ replicate 1000 CHR ''['' @ ''}'') = Inl RecursionError
   \<and> parse_line_to_packet json_loads_stub (''{\"a\":'' @ replicate 1000 CHR ''['' @ ''}'')
         = Inl RecursionError"
proof -
  have b: "json_loads_stub (''{\"a\":'' @ replicate 1000 CHR ''['' @ ''}'') = Inl RecursionError"
    unfolding json_loads_stub_def by (rule if_P) (rule refl)
  from parse_line_to_packet_uncaught
         [of "''{\"a\":'' @ replicate 1000 CHR ''['' @ ''}''" json_loads_stub 1000] b
  show ?thesis by blast
qed

lemma strip_nonspace_ends:
  assumes "\<not> isspace c" "\<not> isspace d"
  shows "strip (c # xs @ [d]) = c # xs @ [d]"
proof -
  from assms(1) have "lstrip (c # xs @ [d]) = c # xs @ [d]"
    by (simp add: lstrip_def)
  moreover from assms(2) have "rstrip ((c # xs) @ d # []) = (c # xs) @ d # rstrip []"
    by (rule rstrip_append_nonspace)
  ultimately show ?thesis by (simp add: strip_def rstrip_def)
qed

lemma extract_json_text_legacy_deep:
  "extract_json_text (''ok seq=1 | {\"a\":'' @ replicate n CHR ''['' @ ''}'')
     = Some (''{\"a\":'' @ replicate n CHR ''['' @ ''}'')"
proof -
  let ?obj = "''{\"a\":'' @ replicate n CHR ''['' @ ''}''"
  let ?line = "''ok seq=1 | {\"a\":'' @ replicate n CHR ''['' @ ''}''"
  have l: "?line = CHR ''o'' # (''k seq=1 | {\"a\":'' @ replicate n CHR ''['') @ ''}''"
    by simp
  have s: "strip ?line = ?line"
    unfolding l by (rule strip_nonspace_ends) (simp_all add: isspace_def)
  have "?line = ''ok seq=1 '' @ CHR ''|'' # ('' '' @ ?obj)" by simp
  moreover have "CHR ''|'' \<notin> set ''ok seq=1 ''" by simp
  ultimately have a: "after_first_bar ?line = '' '' @ ?obj"
    using after_first_bar_append [of "''ok seq=1 ''" "'' '' @ ?obj"] by simp
  have "strip ('' '' @ CHR ''{'' # (''\"a\":'' @ replicate n CHR ''['' @ ''}''))
          = CHR ''{'' # rstrip (''\"a\":'' @ replicate n CHR ''['' @ ''}'')"
    by (rule strip_text) (simp_all add: isspace_def)
  moreover have "rstrip ((''\"a\":'' @ replicate n CHR ''['') @ CHR ''}'' # [])
          = (''\"a\":'' @ replicate n CHR ''['') @ CHR ''}'' # rstrip []"
    by (rule rstrip_append_nonspace) (simp add: isspace_def)
  ultimately have p: "strip ('' '' @ ?obj) = ?obj"
    by (simp add: rstrip_def)
  have b: "CHR ''|'' \<in> set ?line" by simp
  show ?thesis
    unfolding extract_json_text_eq s a p using b
    by (simp add: startswith_def endswith_def)
qed

text \<open>
  C5. The parser is to give none in every case that does not yield an object, a
  decode failure included. Take the line in the old format whose part after the
  first \<open>|\<close> is \<^verbatim>\<open>{"a":\<close>, a thousand opening brackets and \<^verbatim>\<open>}\<close>. The line is not
  blank, is no comment and does not start with \<open>{\<close>; the trimmed part after the bar
  starts with \<open>{\<close> and ends with \<open>}\<close> and is what reaches \<^verbatim>\<open>json.loads\<close>. The decoder
  fails on it with \<^verbatim>\<open>RecursionError\<close>, which is not the \<^verbatim>\<open>JSONDecodeError\<close> the parser
  catches, and the parser raises instead of giving none.
\<close>

theorem parse_line_to_packet_rule_three_raises:
  "extract_json_text (''ok seq=1 | {\"a\":'' @ replicate 1000 CHR ''['' @ ''}'')
     = Some (''{\"a\":'' @ replicate 1000 CHR ''['' @ ''}'')
   \<and> json_loads_stub (''{\"a\":'' @ replicate 1000 CHR ''['' @ ''}'') = Inl RecursionError
   \<and> parse_line_to_packet json_loads_stub
         (''ok seq=1 | {\"a\":'' @ replicate 1000 CHR ''['' @ ''}'') = Inl RecursionError"
proof -
  have j: "json_loads_stub (''{\"a\":'' @ replicate 1000 CHR ''['' @ ''}'') = Inl RecursionError"
    unfolding json_loads_stub_def by (rule if_P) (rule refl)
  have p: "parse_line_to_packet json_loads_stub
         (''ok seq=1 | {\"a\":'' @ replicate 1000 CHR ''['' @ ''}'') = Inl RecursionError"
    unfolding parse_line_to_packet_def extract_json_text_legacy_deep
    using j by simp
  from extract_json_text_legacy_deep [of 1000] j p show ?thesis by blast
qed

section \<open>Packet translator: properties\<close>

lemma and_31_eq_mod: "(c::int) AND 0x7FFFFFFF = c mod 2 ^ 31"
proof -
  have "c AND mask 31 = take_bit 31 c" by (simp add: take_bit_eq_mask)
  then show ?thesis by (simp add: mask_eq_exp_minus_1 take_bit_eq_mod)
qed

lemma get_absent: "map_of pkt k = None \<Longrightarrow> get pkt k = JNull"
  by (simp add: get_def)

lemma stable_hardware_id_Inr:
  "encode_utf8 L nm = Inr bs \<Longrightarrow>
     stable_hardware_id L nm = Inr (1000 + (crc32 L bs AND 0x7FFFFFFF))"
  by (simp add: stable_hardware_id_def Let_def and.assoc)

lemma stable_hardware_id_Inl:
  "encode_utf8 L nm = Inl e \<Longrightarrow> stable_hardware_id L nm = Inl e"
  by (simp add: stable_hardware_id_def)

lemma stable_hardware_id_bounds:
  assumes "stable_hardware_id L nm = Inr h"
  shows "1000 \<le> h \<and> h \<le> 1000 + 2 ^ 31 - 1"
proof (cases "encode_utf8 L nm")
  case (Inl e)
  with assms show ?thesis by (simp add: stable_hardware_id_Inl)
next
  case (Inr bs)
  with assms have h: "h = 1000 + crc32 L bs mod 2 ^ 31"
    by (simp add: stable_hardware_id_Inr and_31_eq_mod)
  have "0 \<le> crc32 L bs mod 2 ^ 31" "crc32 L bs mod 2 ^ 31 < 2 ^ 31" by simp_all
  then show ?thesis unfolding h by simp
qed

lemma utf8_char_Inr_iff: "(\<exists>bs. utf8_char cp = Inr bs) \<longleftrightarrow> \<not> is_surrogate cp"
  by (auto simp: utf8_char_def is_surrogate_def)

lemma utf8_encode_Inr_iff:
  "(\<exists>bs. utf8_encode nm = Inr bs) \<longleftrightarrow> (\<forall>cp \<in> set nm. \<not> is_surrogate cp)"
proof (induction nm)
  case Nil
  show ?case by simp
next
  case (Cons cp cps)
  show ?case
  proof (cases "utf8_char cp")
    case (Inl e)
    then have "is_surrogate cp" using utf8_char_Inr_iff [of cp] by auto
    with Inl show ?thesis by simp
  next
    case (Inr bs)
    then have "\<not> is_surrogate cp" using utf8_char_Inr_iff [of cp] by auto
    with Inr Cons show ?thesis by (auto split: sum.splits)
  qed
qed

lemma utf8_encode_raises:
  "utf8_encode nm = Inl e \<Longrightarrow> e = UnicodeEncodeError"
  by (induction nm) (auto simp: utf8_char_def split: sum.splits if_splits)

lemma translate_packet_Inr:
  assumes "translate_packet L C now_utc pkt = Inr (s, r)"
  shows "stable_hardware_id L (name s) = Inr (hardware_id s)"
    and "sensor_id r = hardware_id s"
    and "gps_latitude s
           = (if isinstance_int_float (get pkt (py_str ''gps_lat'')) then get pkt (py_str ''gps_lat'')
              else float_or_none (DEFAULT_LAT C))"
    and "gps_longitude s
           = (if isinstance_int_float (get pkt (py_str ''gps_long'')) then get pkt (py_str ''gps_long'')
              else float_or_none (DEFAULT_LON C))"
    and "metadata s = [(py_str ''source'', JStr (py_str ''radio'')),
                       (py_str ''net'', get pkt (py_str ''net''))]"
  using assms
  by (auto simp: translate_packet_def Let_def split: sum.split_asm split del: if_split)

lemma translate_packet_same_id:
  assumes "translate_packet L C now_utc pkt = Inr (s, r)"
  shows "\<exists>s' r'. translate_packet L C' now_utc' pkt = Inr (s', r')
                 \<and> hardware_id s' = hardware_id s"
  using assms
  by (auto simp: translate_packet_def Let_def split: sum.split_asm split del: if_split)

lemmas translator_eval =
  translate_packet_def stable_hardware_id_def pylib_stub_def py_str_def get_def
  float_or_none_def utf8_char_def is_surrogate_def

lemmas crc32_eval = crc32_ieee_def crc32_byte_def crc32_step_def

text \<open>
  C7, as amended. For every name that \<^verbatim>\<open>str.encode("utf-8")\<close> encodes,
  \<open>stable_hardware_id\<close> is 1000 plus the CRC32 of the bytes masked to its low 31
  bits, that is, taken modulo \<open>2 ^ 31\<close>; every value it returns lies between 1000 and
  \<open>1000 + 2 ^ 31 - 1\<close>. The UTF-8 encoder accepts exactly the strings without a
  surrogate code point. Whenever \<open>translate_packet\<close> produces a sensor, its
  \<open>hardware_id\<close> is \<open>stable_hardware_id\<close> of its name and is the reading's
  \<open>sensor_id\<close>, and a call on the same packet at another time and with other
  defaults produces a sensor with the same \<open>hardware_id\<close>.
\<close>

theorem stable_hardware_id_range:
  "(\<forall>bs. encode_utf8 L nm = Inr bs \<longrightarrow>
        stable_hardware_id L nm = Inr (1000 + (crc32 L bs AND 0x7FFFFFFF))
      \<and> stable_hardware_id L nm = Inr (1000 + crc32 L bs mod 2 ^ 31))
   \<and> (\<forall>h. stable_hardware_id L nm = Inr h \<longrightarrow> 1000 \<le> h \<and> h \<le> 1000 + 2 ^ 31 - 1)
   \<and> ((\<exists>bs. utf8_encode nm = Inr bs) \<longleftrightarrow> (\<forall>cp \<in> set nm. \<not> is_surrogate cp))
   \<and> (\<forall>s r. translate_packet L C now_utc pkt = Inr (s, r) \<longrightarrow>
          stable_hardware_id L (name s) = Inr (hardware_id s)
        \<and> sensor_id r = hardware_id s
        \<and> (\<exists>s' r'. translate_packet L C' now_utc' pkt = Inr (s', r')
                    \<and> hardware_id s' = hardware_id s))"
proof -
  have 1: "stable_hardware_id L nm = Inr (1000 + (crc32 L bs AND 0x7FFFFFFF))
      \<and> stable_hardware_id L nm = Inr (1000 + crc32 L bs mod 2 ^ 31)"
    if "encode_utf8 L nm = Inr bs" for bs
    using that by (simp add: stable_hardware_id_Inr and_31_eq_mod)
  have 2: "1000 \<le> h \<and> h \<le> 1000 + 2 ^ 31 - 1" if "stable_hardware_id L nm = Inr h" for h
    using that by (rule stable_hardware_id_bounds)
  have 3: "(\<exists>bs. utf8_encode nm = Inr bs) \<longleftrightarrow> (\<forall>cp \<in> set nm. \<not> is_surrogate cp)"
    by (rule utf8_encode_Inr_iff)
  have 4: "stable_hardware_id L (name s) = Inr (hardware_id s)
        \<and> sensor_id r = hardware_id s
        \<and> (\<exists>s' r'. translate_packet L C' now_utc' pkt = Inr (s', r')
                    \<and> hardware_id s' = hardware_id s)"
    if "translate_packet L C now_utc pkt = Inr (s, r)" for s r
    using translate_packet_Inr(1,2) [OF that] translate_packet_same_id [OF that] by blast
  from 1 2 3 4 show ?thesis by blast
qed

theorem stable_hardware_id_range_witness:
  "encode_utf8 pylib_stub (py_str ''a'') = Inr [97]
   \<and> stable_hardware_id pylib_stub (py_str ''a'') = Inr 1756873259
   \<and> (1000 :: int) \<le> 1756873259 \<and> (1756873259 :: int) \<le> 1000 + 2 ^ 31 - 1
   \<and> map_sum id (hardware_id \<circ> fst)
         (translate_packet pylib_stub \<lparr>DEFAULT_LAT = None, DEFAULT_LON = None\<rparr> 0
            [(py_str ''name'', JStr (py_str ''a''))]) = Inr 1756873259
   \<and> map_sum id (hardware_id \<circ> fst)
         (translate_packet pylib_stub \<lparr>DEFAULT_LAT = Some (Finite 10), DEFAULT_LON = None\<rparr> 7
            [(py_str ''name'', JStr (py_str ''a''))]) = Inr 1756873259"
  using stable_hardware_id_range
          [of pylib_stub "py_str ''a''"
              "\<lparr>DEFAULT_LAT = None, DEFAULT_LON = None\<rparr>" 0
              "[(py_str ''name'', JStr (py_str ''a''))]"
              "\<lparr>DEFAULT_LAT = Some (Finite 10), DEFAULT_LON = None\<rparr>" 7]
  by (simp add: translator_eval crc32_eval)

text \<open>
  C7 as stated fails on a name that has no UTF-8 encoding. For the one-character
  name \<^verbatim>\<open>U+D800\<close>, which \<^verbatim>\<open>json.loads\<close> yields from the escape \<^verbatim>\<open>\ud800\<close>,
  \<open>stable_hardware_id\<close> returns no number: it raises \<^verbatim>\<open>UnicodeEncodeError\<close>, and so
  does \<open>translate_packet\<close> on a packet with that name.
\<close>

theorem stable_hardware_id_raises_on_surrogate:
  "stable_hardware_id pylib_stub [0xD800] = Inl UnicodeEncodeError
   \<and> translate_packet pylib_stub \<lparr>DEFAULT_LAT = None, DEFAULT_LON = None\<rparr> 0
        [(py_str ''name'', JStr [0xD800])] = Inl UnicodeEncodeError"
  by (simp add: translator_eval)

lemma translate_packet_succeeds_iff:
  "(\<exists>s r. translate_packet L C now_utc pkt = Inr (s, r)) \<longleftrightarrow>
     (\<exists>s r. translate_packet L C' now_utc' pkt = Inr (s, r))"
  using translate_packet_same_id [of L C now_utc pkt _ _ C' now_utc']
        translate_packet_same_id [of L C' now_utc' pkt _ _ C now_utc]
  by blast

text \<open>
  C8, as amended. In every sensor the translator produces, each coordinate is chosen
  on its own. The latitude is the packet's \<open>gps_lat\<close> when that is present and an int
  or a float in the sense of \<^verbatim>\<open>isinstance\<close>, and the configured default latitude
  otherwise; the longitude is the packet's \<open>gps_long\<close> under the same test, and the
  configured default longitude otherwise. When exactly one of the two passes the
  test, the packet's value for it stands beside the default for the other.
\<close>

theorem translate_packet_coordinates:
  assumes "translate_packet L C now_utc pkt = Inr (s, r)"
  shows
   "gps_latitude s
     = (if isinstance_int_float (get pkt (py_str ''gps_lat'')) then get pkt (py_str ''gps_lat'')
        else float_or_none (DEFAULT_LAT C))
   \<and> gps_longitude s
     = (if isinstance_int_float (get pkt (py_str ''gps_long'')) then get pkt (py_str ''gps_long'')
        else float_or_none (DEFAULT_LON C))
   \<and> (isinstance_int_float (get pkt (py_str ''gps_lat''))
        \<and> \<not> isinstance_int_float (get pkt (py_str ''gps_long'')) \<longrightarrow>
        gps_latitude s = get pkt (py_str ''gps_lat'')
        \<and> gps_longitude s = float_or_none (DEFAULT_LON C))
   \<and> (\<not> isinstance_int_float (get pkt (py_str ''gps_lat''))
        \<and> isinstance_int_float (get pkt (py_str ''gps_long'')) \<longrightarrow>
        gps_latitude s = float_or_none (DEFAULT_LAT C)
        \<and> gps_longitude s = get pkt (py_str ''gps_long''))
   \<and> (map_of pkt (py_str ''gps_lat'') = None \<longrightarrow>
        gps_latitude s = float_or_none (DEFAULT_LAT C))
   \<and> (map_of pkt (py_str ''gps_long'') = None \<longrightarrow>
        gps_longitude s = float_or_none (DEFAULT_LON C))"
  using translate_packet_Inr(3,4) [OF assms] by (simp add: get_absent)

theorem translate_packet_coordinates_witness:
  "map_sum id (\<lambda>p. (gps_latitude (fst p), gps_longitude (fst p)))
      (translate_packet pylib_stub \<lparr>DEFAULT_LAT = Some (Finite 10), DEFAULT_LON = None\<rparr> 0
         [(py_str ''gps_lat'', JFloat (Finite 1.5)), (py_str ''gps_long'', JInt 2)])
     = Inr (JFloat (Finite 1.5), JInt 2)
   \<and> map_sum id (\<lambda>p. (gps_latitude (fst p), gps_longitude (fst p)))
      (translate_packet pylib_stub \<lparr>DEFAULT_LAT = Some (Finite 10), DEFAULT_LON = None\<rparr> 0
         [(py_str ''gps_lat'', JFloat (Finite 1.5)), (py_str ''gps_long'', JStr (py_str ''x''))])
     = Inr (JFloat (Finite 1.5), JNull)
   \<and> map_sum id (\<lambda>p. (gps_latitude (fst p), gps_longitude (fst p)))
      (translate_packet pylib_stub \<lparr>DEFAULT_LAT = Some (Finite 10), DEFAULT_LON = None\<rparr> 0
         [(py_str ''gps_long'', JInt 2)])
     = Inr (JFloat (Finite 10), JInt 2)
   \<and> map_sum id (\<lambda>p. (gps_latitude (fst p), gps_longitude (fst p)))
      (translate_packet pylib_stub \<lparr>DEFAULT_LAT = Some (Finite 10), DEFAULT_LON = None\<rparr> 0 [])
     = Inr (JFloat (Finite 10), JNull)"
proof -
  let ?C = "\<lparr>DEFAULT_LAT = Some (Finite 10), DEFAULT_LON = None\<rparr>"
  let ?t1 = "translate_packet pylib_stub ?C 0
         [(py_str ''gps_lat'', JFloat (Finite 1.5)), (py_str ''gps_long'', JInt 2)]"
  let ?t2 = "translate_packet pylib_stub ?C 0
         [(py_str ''gps_lat'', JFloat (Finite 1.5)), (py_str ''gps_long'', JStr (py_str ''x''))]"
  let ?t3 = "translate_packet pylib_stub ?C 0 [(py_str ''gps_long'', JInt 2)]"
  let ?t4 = "translate_packet pylib_stub ?C 0 []"
  have 1: "?t1 = Inr (fst (projr ?t1), snd (projr ?t1))" by (simp add: translator_eval)
  have 2: "?t2 = Inr (fst (projr ?t2), snd (projr ?t2))" by (simp add: translator_eval)
  have 3: "?t3 = Inr (fst (projr ?t3), snd (projr ?t3))" by (simp add: translator_eval)
  have 4: "?t4 = Inr (fst (projr ?t4), snd (projr ?t4))" by (simp add: translator_eval)
  from translate_packet_coordinates [OF 1] translate_packet_coordinates [OF 2]
       translate_packet_coordinates [OF 3] translate_packet_coordinates [OF 4]
  show ?thesis by (simp add: translator_eval)
qed

text \<open>
  C8 as stated fails: a packet named \<open>a\<close> that carries a numeric \<open>gps_lat\<close> and no
  \<open>gps_long\<close>, translated with the defaults 10 and 20, gets the packet's latitude
  1.5 together with the default longitude 20.
\<close>

theorem translate_packet_mixes_coordinates:
  "translate_packet pylib_stub \<lparr>DEFAULT_LAT = Some (Finite 10), DEFAULT_LON = Some (Finite 20)\<rparr> 0
      [(py_str ''name'', JStr (py_str ''a'')), (py_str ''gps_lat'', JFloat (Finite 1.5))]
     = Inr (\<lparr> hardware_id = 1756873259, name = py_str ''a'', sensor_type = JNull,
               gps_latitude = JFloat (Finite 1.5), gps_longitude = JFloat (Finite 20),
               metadata = [(py_str ''source'', JStr (py_str ''radio'')), (py_str ''net'', JNull)] \<rparr>,
            \<lparr> sensor_id = 1756873259, ts = 0, sequence = JNull, temperature_c = JNull,
               humidity_pct = JNull, capacitance_val = JNull, battery_v = JNull,
               rssi_dbm = JNull \<rparr>)"
  by (simp add: translator_eval crc32_eval)



section \<open>Relay switcher start: properties\<close>

lemma float_gt_iff_not_le: "x \<noteq> NaN \<Longrightarrow> float_gt_int x k \<longleftrightarrow> \<not> float_le_int x k"
  by (cases x) auto

text \<open>
  C9, as amended. \<open>start_bt_switcher\<close> starts and returns the controller thread
  exactly when neither the on-minutes nor the off-minutes are at most zero and a
  non-empty device address is given; for minutes other than NaN that is exactly
  when both are positive and the address is given. The thread then carries the
  arguments and is the one thread added to those started. Whenever a phase is at
  most zero or the address is absent or empty, it returns none and starts nothing.
\<close>

theorem start_bt_switcher_iff:
  "(fst (start_bt_switcher up down mac password started) \<noteq> None
      \<longleftrightarrow> \<not> float_le_int up 0 \<and> \<not> float_le_int down 0 \<and> mac \<noteq> None \<and> mac \<noteq> Some [])
   \<and> (up \<noteq> NaN \<and> down \<noteq> NaN \<longrightarrow>
        (fst (start_bt_switcher up down mac password started) \<noteq> None
           \<longleftrightarrow> float_gt_int up 0 \<and> float_gt_int down 0 \<and> mac \<noteq> None \<and> mac \<noteq> Some []))
   \<and> (\<not> float_le_int up 0 \<and> \<not> float_le_int down 0 \<and> mac \<noteq> None \<and> mac \<noteq> Some [] \<longrightarrow>
        (\<exists>t. start_bt_switcher up down mac password started = (Some t, started @ [t])
             \<and> thread_name t = ''starlink-ble'' \<and> daemon t
             \<and> uptime_m t = up \<and> downtime_m t = down
             \<and> mac_addr t = mac \<and> relay_password t = password))
   \<and> (float_le_int up 0 \<or> float_le_int down 0 \<or> mac = None \<or> mac = Some [] \<longrightarrow>
        start_bt_switcher up down mac password started = (None, started))"
proof -
  have 1: "fst (start_bt_switcher up down mac password started) \<noteq> None
      \<longleftrightarrow> \<not> float_le_int up 0 \<and> \<not> float_le_int down 0 \<and> mac \<noteq> None \<and> mac \<noteq> Some []"
    by (auto simp add: start_bt_switcher_def Let_def)
  have 2: "fst (start_bt_switcher up down mac password started) \<noteq> None
           \<longleftrightarrow> float_gt_int up 0 \<and> float_gt_int down 0 \<and> mac \<noteq> None \<and> mac \<noteq> Some []"
    if "up \<noteq> NaN \<and> down \<noteq> NaN"
    using that 1 by (simp add: float_gt_iff_not_le)
  have 3: "\<exists>t. start_bt_switcher up down mac password started = (Some t, started @ [t])
             \<and> thread_name t = ''starlink-ble'' \<and> daemon t
             \<and> uptime_m t = up \<and> downtime_m t = down
             \<and> mac_addr t = mac \<and> relay_password t = password"
    if "\<not> float_le_int up 0 \<and> \<not> float_le_int down 0 \<and> mac \<noteq> None \<and> mac \<noteq> Some []"
    using that by (auto simp add: start_bt_switcher_def Let_def)
  have 4: "start_bt_switcher up down mac password started = (None, started)"
    if "float_le_int up 0 \<or> float_le_int down 0 \<or> mac = None \<or> mac = Some []"
    using that by (auto simp add: start_bt_switcher_def)
  from 1 2 3 4 show ?thesis by blast
qed

theorem start_bt_switcher_iff_witness:
  "start_bt_switcher (Finite 5) (Finite 55) (Some ''AA:BB:CC:DD:EE:FF'') 1234 []
     = (Some \<lparr> thread_name = ''starlink-ble'', daemon = True, uptime_m = Finite 5,
                downtime_m = Finite 55, mac_addr = Some ''AA:BB:CC:DD:EE:FF'',
                relay_password = 1234 \<rparr>,
        [\<lparr> thread_name = ''starlink-ble'', daemon = True, uptime_m = Finite 5,
            downtime_m = Finite 55, mac_addr = Some ''AA:BB:CC:DD:EE:FF'',
            relay_password = 1234 \<rparr>])
   \<and> start_bt_switcher (Finite 0) (Finite 55) (Some ''AA:BB:CC:DD:EE:FF'') 1234 [] = (None, [])
   \<and> start_bt_switcher (Finite 5) (Finite (- 1)) (Some ''AA:BB:CC:DD:EE:FF'') 1234 [] = (None, [])
   \<and> start_bt_switcher (Finite 5) NegInf (Some ''AA:BB:CC:DD:EE:FF'') 1234 [] = (None, [])
   \<and> start_bt_switcher (Finite 5) (Finite 55) None 1234 [] = (None, [])
   \<and> start_bt_switcher (Finite 5) (Finite 55) (Some []) 1234 [] = (None, [])"
  using start_bt_switcher_iff [of "Finite 5" "Finite 55" "Some ''AA:BB:CC:DD:EE:FF''" 1234 "[]"]
        start_bt_switcher_iff [of "Finite 0" "Finite 55" "Some ''AA:BB:CC:DD:EE:FF''" 1234 "[]"]
        start_bt_switcher_iff [of "Finite 5" "Finite (- 1)" "Some ''AA:BB:CC:DD:EE:FF''" 1234 "[]"]
        start_bt_switcher_iff [of "Finite 5" NegInf "Some ''AA:BB:CC:DD:EE:FF''" 1234 "[]"]
        start_bt_switcher_iff [of "Finite 5" "Finite 55" None 1234 "[]"]
        start_bt_switcher_iff [of "Finite 5" "Finite 55" "Some []" 1234 "[]"]
  by (auto simp add: thread.equality)

text \<open>
  C9 as stated fails on a NaN setting, which \<^verbatim>\<open>float("nan")\<close> in \<^verbatim>\<open>load_config\<close>
  yields: NaN is not positive, yet it is not at most zero either, so the guard lets
  it pass and the thread is started.
\<close>

theorem start_bt_switcher_starts_on_nan:
  "\<not> float_gt_int NaN 0
   \<and> start_bt_switcher NaN (Finite 1) (Some ''AA:BB:CC:DD:EE:FF'') 1234 []
     = (Some \<lparr> thread_name = ''starlink-ble'', daemon = True, uptime_m = NaN,
                downtime_m = Finite 1, mac_addr = Some ''AA:BB:CC:DD:EE:FF'',
                relay_password = 1234 \<rparr>,
        [\<lparr> thread_name = ''starlink-ble'', daemon = True, uptime_m = NaN,
            downtime_m = Finite 1, mac_addr = Some ''AA:BB:CC:DD:EE:FF'',
            relay_password = 1234 \<rparr>])"
  by (simp add: start_bt_switcher_def Let_def)

end
